theory Spec2Isabelle
  imports Complex_Main "HOL-Library.Signed_Division"
begin

section \<open>Go values used by the scale backend\<close>

text \<open>
  The backend (\<^verbatim>\<open>src/backend/scale.go\<close>) is a Go program. Go's \<^verbatim>\<open>int\<close> is a
  64-bit two's complement integer on the platforms the server runs on. It is modelled
  as a HOL \<open>int\<close> in the range \<open>min_int .. max_int\<close>, and every arithmetic operation of
  the source is written with its wrap-around (\<open>wrap_int\<close>). Go's \<^verbatim>\<open>%\<close> truncates
  towards zero, so the remainder has the sign of the dividend: that is \<open>smod\<close>; a zero
  divisor panics. Indexing a slice out of range panics, too.
\<close>

datatype panic = IndexOutOfRange | DivideByZero | MakeSliceLenOutOfRange

definition min_int :: int where
  "min_int = - (2 ^ 63)"

definition max_int :: int where
  "max_int = 2 ^ 63 - 1"

definition is_int :: "int \<Rightarrow> bool" where
  "is_int x \<longleftrightarrow> min_int \<le> x \<and> x \<le> max_int"

definition wrap_int :: "int \<Rightarrow> int" where
  "wrap_int x = (x + 2 ^ 63) mod 2 ^ 64 - 2 ^ 63"

definition go_add :: "int \<Rightarrow> int \<Rightarrow> int" where
  "go_add a b = wrap_int (a + b)"

definition go_sub :: "int \<Rightarrow> int \<Rightarrow> int" where
  "go_sub a b = wrap_int (a - b)"

definition go_rem :: "int \<Rightarrow> int \<Rightarrow> panic + int" where
  "go_rem a b = (if b = 0 then Inl DivideByZero else Inr (a smod b))"

text \<open>
  A \<^verbatim>\<open>float64\<close> is a finite number, an infinity or NaN. Only the comparisons of the
  source are needed; a comparison with NaN is false.
\<close>

datatype float64 = Finite real | PosInf | NegInf | NaN

fun flt :: "float64 \<Rightarrow> float64 \<Rightarrow> bool" where
  "flt NaN y = False"
| "flt x NaN = False"
| "flt (Finite a) (Finite b) = (a < b)"
| "flt NegInf NegInf = False"
| "flt NegInf y = True"
| "flt x NegInf = False"
| "flt PosInf y = False"
| "flt x PosInf = True"

definition fgt :: "float64 \<Rightarrow> float64 \<Rightarrow> bool" where
  "fgt x y = flt y x"

text \<open>
  A \<^verbatim>\<open>time.Time\<close> is an instant, counted in nanoseconds from Go's zero Time; every
  call of \<^verbatim>\<open>time.Now()\<close> in the source is an argument of the model (the reading of
  the clock). A \<^verbatim>\<open>time.Duration\<close> is an \<^verbatim>\<open>int64\<close> of nanoseconds, and
  \<^verbatim>\<open>Time.Sub\<close> saturates at its bounds.
\<close>

type_synonym time = int
type_synonym duration = int

definition Minute :: duration where
  "Minute = 60 * 1000000000"

definition Hour :: duration where
  "Hour = 60 * Minute"

definition OkLimit :: duration where
  "OkLimit = 5 * Minute"

definition time_Add :: "time \<Rightarrow> duration \<Rightarrow> time" where
  "time_Add t d = t + d"

definition time_Sub :: "time \<Rightarrow> time \<Rightarrow> duration" where
  "time_Sub t u = (if t - u > max_int then max_int else if t - u < min_int then min_int else t - u)"

definition Since :: "time \<Rightarrow> time \<Rightarrow> duration" where
  "Since now t = time_Sub now t"

text \<open>Go \<^verbatim>\<open>error\<close> values: what the store returns, and \<^verbatim>\<open>fmt.Errorf\<close> with \<^verbatim>\<open>%w\<close>.\<close>

datatype error = StoreError string | Wrapped string error

section \<open>The data model\<close>

record Measurement =
  Index :: int
  Weight :: float64
  At :: time

record Pub =
  IsOpen :: bool
  OpenedAt :: time
  ClosedAt :: time

text \<open>
  The fields of \<^verbatim>\<open>Scale\<close> that hold data. The mutex, the Prometheus monitor and the
  logger are not state of the ledger: the gauges and the log are only written. The
  store is outside: each reply of the store is an argument of the operation that calls
  it. The field \<^verbatim>\<open>size\<close> is \<open>size_scale\<close> here.
\<close>

record Scale =
  Measurements :: "Measurement list"
  index :: int
  size_scale :: int
  valid :: int
  Pub :: Pub
  ActiveKeg :: int
  LastOk :: time
  Rssi :: float64

definition zero_Measurement :: Measurement where
  "zero_Measurement = \<lparr>Index = 0, Weight = Finite 0, At = 0\<rparr>"

text \<open>
  \<^verbatim>\<open>make([]Measurement, n)\<close> panics when \<^verbatim>\<open>n\<close> is negative or the slice does
  not fit the allocator (the runtime's \<^verbatim>\<open>makeslice\<close>: 40 bytes for each
  \<^verbatim>\<open>Measurement\<close>, at most \<^verbatim>\<open>maxAlloc\<close> bytes, which is \<open>2 ^ 48\<close> on amd64).
  No slice is longer than that: \<open>is_slice\<close> says so of a list that stands for one.
\<close>

definition maxAlloc :: int where
  "maxAlloc = 2 ^ 48"

definition make_ok :: "int \<Rightarrow> bool" where
  "make_ok n \<longleftrightarrow> 0 \<le> n \<and> 40 * n \<le> maxAlloc"

definition is_slice :: "Measurement list \<Rightarrow> bool" where
  "is_slice xs \<longleftrightarrow> make_ok (int (length xs))"

definition get_slot :: "Measurement list \<Rightarrow> int \<Rightarrow> panic + Measurement" where
  "get_slot xs i =
     (if 0 \<le> i \<and> i < int (length xs) then Inr (xs ! nat i) else Inl IndexOutOfRange)"

definition set_slot :: "Measurement list \<Rightarrow> int \<Rightarrow> Measurement \<Rightarrow> panic + Measurement list" where
  "set_slot xs i m =
     (if 0 \<le> i \<and> i < int (length xs) then Inr (xs[nat i := m]) else Inl IndexOutOfRange)"

section \<open>Construction\<close>

text \<open>
  The loop of \<^verbatim>\<open>loadDataFromStore\<close>: \<^verbatim>\<open>for _, m := range measurements { s.Measurements[i] = m }\<close>.
  The source sets \<^verbatim>\<open>i := 0\<close> before the loop and never changes it.
\<close>

fun load_loop :: "Measurement list \<Rightarrow> int \<Rightarrow> Measurement list \<Rightarrow> panic + Measurement list" where
  "load_loop slots i [] = Inr slots"
| "load_loop slots i (m # ms) =
     (case set_slot slots i m of
        Inl p \<Rightarrow> Inl p
      | Inr slots' \<Rightarrow> load_loop slots' i ms)"

definition loadDataFromStore ::
  "Scale \<Rightarrow> error + Measurement list \<Rightarrow> error + int \<Rightarrow> panic + Scale" where
  "loadDataFromStore s measurements_reply keg_reply =
     (case (case measurements_reply of
              Inl err \<Rightarrow> Inr s
            | Inr measurements \<Rightarrow>
                (let s1 = s\<lparr>index := go_sub (int (length measurements)) 1\<rparr>
                 in case load_loop (Measurements s1) 0 measurements of
                      Inl p \<Rightarrow> Inl p
                    | Inr slots \<Rightarrow> Inr (s1\<lparr>Measurements := slots\<rparr>)))
      of Inl p \<Rightarrow> Inl p
       | Inr s2 \<Rightarrow>
           (case keg_reply of
              Inl err \<Rightarrow> Inr s2
            | Inr activeKeg \<Rightarrow> Inr (s2\<lparr>ActiveKeg := activeKeg\<rparr>)))"

text \<open>
  \<^verbatim>\<open>NewScale\<close>: the three readings of the clock are those of \<^verbatim>\<open>OpenedAt\<close>,
  \<^verbatim>\<open>ClosedAt\<close> and \<^verbatim>\<open>LastOk\<close>, in the order of the struct literal. The
  goroutine that calls \<^verbatim>\<open>Recheck\<close> every 15 seconds is a caller of \<open>Recheck\<close>.
\<close>

definition NewScale ::
  "int \<Rightarrow> time \<Rightarrow> time \<Rightarrow> time \<Rightarrow> error + Measurement list \<Rightarrow> error + int \<Rightarrow> panic + Scale" where
  "NewScale bufferSize t_opened t_closed t_ok measurements_reply keg_reply =
     (if \<not> make_ok bufferSize then Inl MakeSliceLenOutOfRange
      else loadDataFromStore
        \<lparr>Measurements = replicate (nat bufferSize) zero_Measurement,
         index = - 1,
         size_scale = bufferSize,
         valid = 0,
         Pub = \<lparr>IsOpen = False,
                OpenedAt = time_Add t_opened (- 9999 * Hour),
                ClosedAt = time_Add t_closed (- 9999 * Hour)\<rparr>,
         ActiveKeg = 0,
         LastOk = time_Add t_ok (- 9999 * Hour),
         Rssi = Finite 0\<rparr>
        measurements_reply keg_reply)"

section \<open>The ledger\<close>

text \<open>The guard of \<^verbatim>\<open>AddMeasurement\<close>: \<^verbatim>\<open>weight < 6000 || weight > 65000\<close>.\<close>

definition implausible :: "float64 \<Rightarrow> bool" where
  "implausible weight \<longleftrightarrow> flt weight (Finite 6000) \<or> fgt weight (Finite 65000)"

definition AddMeasurement ::
  "Scale \<Rightarrow> float64 \<Rightarrow> time \<Rightarrow> error option \<Rightarrow> panic + (Scale \<times> error option)" where
  "AddMeasurement s weight now store_err =
     (if implausible weight then Inr (s, None)
      else
        (let i1 = go_add (index s) 1;
             i2 = (if i1 \<ge> int (length (Measurements s)) then 0 else i1);
             s1 = s\<lparr>index := i2\<rparr>;
             m = \<lparr>Index = i2, Weight = weight, At = now\<rparr>
         in case set_slot (Measurements s1) i2 m of
              Inl p \<Rightarrow> Inl p
            | Inr slots \<Rightarrow>
                (let s2 = s1\<lparr>Measurements := slots\<rparr>
                 in case store_err of
                      Some err \<Rightarrow> Inr (s2, Some (Wrapped ''could not store measurement: '' err))
                    | None \<Rightarrow>
                        Inr (if valid s2 < size_scale s2
                             then s2\<lparr>valid := go_add (valid s2) 1\<rparr> else s2, None))))"

definition GetValidCount :: "Scale \<Rightarrow> int" where
  "GetValidCount s = valid s"

definition empty_Measurement :: Measurement where
  "empty_Measurement = \<lparr>Index = - 1, Weight = Finite 0, At = 0\<rparr>"

definition physical_index :: "Scale \<Rightarrow> int \<Rightarrow> panic + int" where
  "physical_index s i = go_rem (go_add (go_sub (index s) i) (size_scale s)) (size_scale s)"

definition GetMeasurement :: "Scale \<Rightarrow> int \<Rightarrow> panic + Measurement" where
  "GetMeasurement s i =
     (if i > GetValidCount s \<or> i > size_scale s then Inr empty_Measurement
      else case physical_index s i of
             Inl p \<Rightarrow> Inl p
           | Inr idx \<Rightarrow> get_slot (Measurements s) idx)"

definition GetLastMeasurement :: "Scale \<Rightarrow> panic + Measurement" where
  "GetLastMeasurement s = GetMeasurement s 0"

definition HasLastN :: "Scale \<Rightarrow> int \<Rightarrow> bool" where
  "HasLastN s n = (let n' = (if n > size_scale s then size_scale s else n) in valid s \<ge> n')"

definition SetActiveKeg :: "Scale \<Rightarrow> int \<Rightarrow> error option \<Rightarrow> Scale \<times> error option" where
  "SetActiveKeg s keg store_err = (s\<lparr>ActiveKeg := keg\<rparr>, store_err)"

section \<open>Liveness and the venue state\<close>

text \<open>
  \<^verbatim>\<open>Ping\<close> reads the clock for \<^verbatim>\<open>OpenedAt\<close> (only when the pub is closed) and
  then for \<^verbatim>\<open>LastOk\<close>. \<^verbatim>\<open>Recheck\<close> reads it in \<^verbatim>\<open>IsOk\<close> and then, when it
  closes the pub, for \<^verbatim>\<open>ClosedAt\<close>.
\<close>

definition Ping :: "Scale \<Rightarrow> time \<Rightarrow> time \<Rightarrow> Scale" where
  "Ping s t_opened t_ok =
     (let s1 = (if \<not> IsOpen (Pub s)
                then s\<lparr>Pub := (Pub s)\<lparr>IsOpen := True, OpenedAt := t_opened\<rparr>\<rparr>
                else s)
      in s1\<lparr>LastOk := t_ok\<rparr>)"

definition IsOk :: "Scale \<Rightarrow> time \<Rightarrow> bool" where
  "IsOk s now \<longleftrightarrow> Since now (LastOk s) < OkLimit"

definition Recheck :: "Scale \<Rightarrow> time \<Rightarrow> time \<Rightarrow> Scale" where
  "Recheck s t_check t_closed =
     (if IsOk s t_check then s
      else if IsOpen (Pub s)
      then s\<lparr>Pub := (Pub s)\<lparr>IsOpen := False, ClosedAt := time_Add t_closed (- 1 * OkLimit)\<rparr>\<rparr>
      else s)"

definition SetRssi :: "Scale \<Rightarrow> float64 \<Rightarrow> Scale" where
  "SetRssi s rssi = s\<lparr>Rssi := rssi\<rparr>"

section \<open>Runs of the backend\<close>

text \<open>
  The callers of the scale (the HTTP handlers and the goroutine of \<^verbatim>\<open>NewScale\<close>)
  call its operations one after the other; the handlers drop the error that
  \<^verbatim>\<open>AddMeasurement\<close> returns. A run is the list of the calls, each with the readings
  of the clock it makes and the reply of the store it gets. A panic ends the run.
  The clock never goes back: \<open>clock_ok c ops\<close> says that the readings of \<open>ops\<close>, in
  their order, do not decrease, starting from the reading \<open>c\<close>.
\<close>

datatype call =
    Append float64 time "error option"
  | PingCall time time
  | RecheckCall time time
  | RssiCall float64
  | KegCall int "error option"

fun step :: "Scale \<Rightarrow> call \<Rightarrow> panic + Scale" where
  "step s (Append weight now store_err) =
     (case AddMeasurement s weight now store_err of
        Inl p \<Rightarrow> Inl p
      | Inr (s', err) \<Rightarrow> Inr s')"
| "step s (PingCall t_opened t_ok) = Inr (Ping s t_opened t_ok)"
| "step s (RecheckCall t_check t_closed) = Inr (Recheck s t_check t_closed)"
| "step s (RssiCall rssi) = Inr (SetRssi s rssi)"
| "step s (KegCall keg store_err) = Inr (fst (SetActiveKeg s keg store_err))"

fun run :: "Scale \<Rightarrow> call list \<Rightarrow> panic + Scale" where
  "run s [] = Inr s"
| "run s (c # cs) = (case step s c of Inl p \<Rightarrow> Inl p | Inr s' \<Rightarrow> run s' cs)"

fun clock_ok :: "time \<Rightarrow> call list \<Rightarrow> bool" where
  "clock_ok c [] = True"
| "clock_ok c (Append weight now store_err # cs) = (c \<le> now \<and> clock_ok now cs)"
| "clock_ok c (PingCall t_opened t_ok # cs) = (c \<le> t_opened \<and> t_opened \<le> t_ok \<and> clock_ok t_ok cs)"
| "clock_ok c (RecheckCall t_check t_closed # cs) =
     (c \<le> t_check \<and> t_check \<le> t_closed \<and> clock_ok t_closed cs)"
| "clock_ok c (RssiCall rssi # cs) = clock_ok c cs"
| "clock_ok c (KegCall keg store_err # cs) = clock_ok c cs"

text \<open>The replies of the store at startup: a list of measurements is a slice.\<close>

definition reply_ok :: "error + Measurement list \<Rightarrow> bool" where
  "reply_ok measurements_reply =
     (case measurements_reply of Inl err \<Rightarrow> True | Inr measurements \<Rightarrow> is_slice measurements)"

text \<open>
  Example values: the start of the process is the instant \<open>boot\<close>; \<open>empty3\<close> is the
  scale of capacity 3 that \<open>NewScale\<close> makes over an empty store.
\<close>

definition boot :: time where
  "boot = 9999 * Hour"

definition empty3 :: Scale where
  "empty3 =
     \<lparr>Measurements = [zero_Measurement, zero_Measurement, zero_Measurement],
      index = - 1, size_scale = 3, valid = 0,
      Pub = \<lparr>IsOpen = False, OpenedAt = 0, ClosedAt = 0\<rparr>,
      ActiveKeg = 0, LastOk = 0, Rssi = Finite 0\<rparr>"

section \<open>Well-formed ledgers\<close>

text \<open>
  What holds of the ledger fields of every scale that \<open>NewScale\<close> has made with a
  capacity of at least 1, whatever is called on it afterwards: the slice has \<open>size\<close>
  slots, the cursor is \<open>- 1\<close> or the index of a slice, the valid count is between 0
  and the capacity, and a cursor that is still \<open>- 1\<close> goes with a valid count of 0.
\<close>

definition ledger_ok :: "Scale \<Rightarrow> bool" where
  "ledger_ok s \<longleftrightarrow>
     1 \<le> size_scale s \<and> make_ok (size_scale s)
     \<and> int (length (Measurements s)) = size_scale s
     \<and> make_ok (index s + 1)
     \<and> 0 \<le> valid s \<and> valid s \<le> size_scale s
     \<and> (index s = - 1 \<longrightarrow> valid s = 0)"

text \<open>
  A call that appends a weight the filter lets through, and one that the store saves
  as well.
\<close>

fun plausible_append :: "call \<Rightarrow> bool" where
  "plausible_append (Append weight now store_err) = (\<not> implausible weight)"
| "plausible_append c = False"

fun saved_append :: "call \<Rightarrow> bool" where
  "saved_append (Append weight now store_err) = (\<not> implausible weight \<and> store_err = None)"
| "saved_append c = False"

section \<open>The venue state along a run\<close>

text \<open>
  What holds of the venue fields after every call, when \<open>c\<close> is the last reading of
  the clock: the last contact and the closing time plus the staleness threshold are not
  later than \<open>c\<close>; an open pub was opened after it was last closed and had contact
  since; a closed pub was closed no earlier than it was last opened.
\<close>

definition venue_ok :: "time \<Rightarrow> Scale \<Rightarrow> bool" where
  "venue_ok c s \<longleftrightarrow>
     LastOk s \<le> c \<and> ClosedAt (Pub s) + OkLimit \<le> c
     \<and> (IsOpen (Pub s) \<longrightarrow> OpenedAt (Pub s) \<le> LastOk s \<and> ClosedAt (Pub s) < OpenedAt (Pub s))
     \<and> (\<not> IsOpen (Pub s) \<longrightarrow> OpenedAt (Pub s) \<le> ClosedAt (Pub s))"

section \<open>The plausible range of the specification\<close>

text \<open>
  The specification speaks of the weights within the plausible range, from the minimum
  6000 to the maximum 65000: \<open>in_plausible_range\<close> is that range, read with Go's
  \<^verbatim>\<open><=\<close> (\<open>fle\<close>, false when an operand is NaN). The guard of the source is
  \<open>implausible\<close> above.
\<close>

fun fle :: "float64 \<Rightarrow> float64 \<Rightarrow> bool" where
  "fle NaN y = False"
| "fle x NaN = False"
| "fle x y = (\<not> flt y x)"

definition in_plausible_range :: "float64 \<Rightarrow> bool" where
  "in_plausible_range weight \<longleftrightarrow> fle (Finite 6000) weight \<and> fle weight (Finite 65000)"

section \<open>The mutex and the calls of the store\<close>





section \<open>Example values\<close>

text \<open>
  The store that is down returns \<open>down\<close>. \<open>first3\<close> is what the first append of
  7000 g at \<open>boot\<close> writes; \<open>saved3\<close> and \<open>unsaved3\<close> are \<open>empty3\<close> after that
  append, saved or not by the store; \<open>full3\<close> and \<open>unsaved3_full\<close> are \<open>empty3\<close>
  after three appends; \<open>loaded3\<close> is the scale of capacity 3 made over a store that
  holds \<open>old1\<close> and \<open>old2\<close>; \<open>empty1\<close> and \<open>once1\<close> have capacity 1; \<open>open3\<close> is
  \<open>empty3\<close> after a ping; \<open>nan3\<close> is \<open>empty3\<close> after the append of a NaN.
\<close>

definition down :: error where
  "down = StoreError ''connection refused''"

definition first3 :: Measurement where
  "first3 = \<lparr>Index = 0, Weight = Finite 7000, At = boot\<rparr>"

definition saved3 :: Scale where
  "saved3 = empty3\<lparr>Measurements := [first3, zero_Measurement, zero_Measurement], index := 0, valid := 1\<rparr>"

definition unsaved3 :: Scale where
  "unsaved3 = empty3\<lparr>Measurements := [first3, zero_Measurement, zero_Measurement], index := 0\<rparr>"

definition full3 :: Scale where
  "full3 =
     empty3\<lparr>Measurements := [first3, \<lparr>Index = 1, Weight = Finite 7100, At = boot + 1\<rparr>,
                               \<lparr>Index = 2, Weight = Finite 7200, At = boot + 2\<rparr>],
            index := 2, valid := 3\<rparr>"

definition unsaved3_full :: Scale where
  "unsaved3_full =
     empty3\<lparr>Measurements := [first3, \<lparr>Index = 1, Weight = Finite 7100, At = boot + 1\<rparr>,
                               \<lparr>Index = 2, Weight = Finite 7200, At = boot + 2\<rparr>],
            index := 2\<rparr>"

definition old1 :: Measurement where
  "old1 = \<lparr>Index = 0, Weight = Finite 7000, At = 1\<rparr>"

definition old2 :: Measurement where
  "old2 = \<lparr>Index = 1, Weight = Finite 7100, At = 2\<rparr>"

definition loaded3 :: Scale where
  "loaded3 = empty3\<lparr>Measurements := [old2, zero_Measurement, zero_Measurement], index := 1\<rparr>"

definition empty1 :: Scale where
  "empty1 = empty3\<lparr>Measurements := [zero_Measurement], size_scale := 1\<rparr>"

definition once1 :: Scale where
  "once1 = empty1\<lparr>Measurements := [first3], index := 0, valid := 1\<rparr>"

definition open3 :: Scale where
  "open3 = Ping empty3 boot boot"

definition nan3 :: Scale where
  "nan3 = empty3\<lparr>Measurements := [\<lparr>Index = 0, Weight = NaN, At = boot\<rparr>, zero_Measurement, zero_Measurement],
                 index := 0, valid := 1\<rparr>"

section \<open>Arithmetic of the model\<close>

lemmas eval_defs =
  NewScale_def loadDataFromStore_def make_ok_def maxAlloc_def go_sub_def go_add_def go_rem_def
  wrap_int_def time_Add_def AddMeasurement_def implausible_def fgt_def set_slot_def get_slot_def
  GetMeasurement_def GetLastMeasurement_def GetValidCount_def physical_index_def
  signed_modulo_int_def zero_Measurement_def empty_Measurement_def
  empty3_def first3_def saved3_def unsaved3_def unsaved3_full_def old1_def old2_def loaded3_def
  empty1_def once1_def down_def

lemma wrap_int_id: "min_int \<le> x \<Longrightarrow> x \<le> max_int \<Longrightarrow> wrap_int x = x"
  by (simp add: wrap_int_def min_int_def max_int_def)

lemma make_ok_bounds: "make_ok n \<Longrightarrow> 0 \<le> n \<and> n \<le> 7036874417766"
  by (simp add: make_ok_def maxAlloc_def)

lemma smod_nonneg: "0 \<le> a \<Longrightarrow> 0 < b \<Longrightarrow> (a::int) smod b = a mod b"
  by (simp add: signed_modulo_int_def sgn_if)

lemma mod_succ_ring:
  fixes i N :: int
  assumes "0 \<le> i" "i < N"
  shows "(i + 1) mod N = (if N \<le> i + 1 then 0 else i + 1)"
proof (cases "N \<le> i + 1")
  case True
  with assms have "i + 1 = N" by simp
  then show ?thesis by simp
next
  case False
  with assms show ?thesis by simp
qed

lemma mod_shift_neq:
  fixes p k N :: int
  assumes "0 \<le> p" "p < N" "0 < k" "k < N"
  shows "(p + k) mod N \<noteq> p"
proof (cases "p + k < N")
  case True
  with assms show ?thesis by simp
next
  case False
  have "(p + k - N) mod N = p + k - N"
    using False assms by (intro mod_pos_pos_trivial) simp_all
  then have "(p + k) mod N = p + k - N" by simp
  then show ?thesis using assms by simp
qed

section \<open>Construction and calls keep the ledger well-formed\<close>

lemma NewScale_empty3: "NewScale 3 boot boot boot (Inr []) (Inr 0) = Inr empty3"
  by (simp add: NewScale_def loadDataFromStore_def make_ok_def maxAlloc_def go_sub_def wrap_int_def
      empty3_def boot_def time_Add_def numeral_3_eq_3)

lemma NewScale_empty1: "NewScale 1 boot boot boot (Inr []) (Inr 0) = Inr empty1"
  by (simp add: eval_defs boot_def)

lemma load_loop_length:
  "load_loop slots i ms = Inr slots' \<Longrightarrow> length slots' = length slots"
  by (induction ms arbitrary: slots) (auto simp: set_slot_def split: if_splits sum.splits)

lemma load_loop_zero:
  "slots \<noteq> [] \<Longrightarrow> load_loop slots 0 ms = Inr (if ms = [] then slots else slots[0 := last ms])"
  by (induction ms arbitrary: slots) (auto simp: set_slot_def)

lemma NewScale_ledger_ok:
  assumes "NewScale N t1 t2 t3 mr kr = Inr s" and "1 \<le> N" and "reply_ok mr"
  shows "ledger_ok s \<and> size_scale s = N \<and> valid s = 0"
  using assms
  by (auto simp: NewScale_def loadDataFromStore_def ledger_ok_def reply_ok_def is_slice_def
      go_sub_def wrap_int_id make_ok_def maxAlloc_def min_int_def max_int_def Let_def
      dest!: load_loop_length split: if_splits sum.splits)

lemma AddMeasurement_implausible: "implausible w \<Longrightarrow> AddMeasurement s w t e = Inr (s, None)"
  by (simp add: AddMeasurement_def)

lemma AddMeasurement_plausible:
  assumes "ledger_ok s" and "\<not> implausible w"
  shows "\<exists>s'. AddMeasurement s w t e = Inr (s', map_option (Wrapped ''could not store measurement: '') e)
     \<and> index s' = (if size_scale s \<le> index s + 1 then 0 else index s + 1)
     \<and> Measurements s' = (Measurements s)[nat (index s') := \<lparr>Index = index s', Weight = w, At = t\<rparr>]
     \<and> valid s' = (if e = None \<and> valid s < size_scale s then valid s + 1 else valid s)
     \<and> size_scale s' = size_scale s \<and> Pub s' = Pub s \<and> LastOk s' = LastOk s"
proof -
  from assms(1) have b: "0 \<le> index s + 1" "index s + 1 \<le> 7036874417766" "1 \<le> size_scale s"
    "size_scale s \<le> 7036874417766" "int (length (Measurements s)) = size_scale s"
    "0 \<le> valid s" "valid s \<le> size_scale s"
    using make_ok_bounds by (auto simp: ledger_ok_def)
  have w1: "go_add (index s) 1 = index s + 1"
    unfolding go_add_def using b by (intro wrap_int_id) (simp_all add: min_int_def max_int_def)
  have w2: "go_add (valid s) 1 = valid s + 1"
    unfolding go_add_def using b by (intro wrap_int_id) (simp_all add: min_int_def max_int_def)
  show ?thesis
    using assms(2) b
    by (cases e) (auto simp: AddMeasurement_def Let_def w1 w2 set_slot_def)
qed

lemma saved_plausible: "saved_append c \<Longrightarrow> plausible_append c"
  by (cases c) auto

lemma ledger_ok_frame:
  "ledger_ok s \<Longrightarrow> Measurements s' = Measurements s \<Longrightarrow> index s' = index s
   \<Longrightarrow> size_scale s' = size_scale s \<Longrightarrow> valid s' = valid s \<Longrightarrow> ledger_ok s'"
  by (simp add: ledger_ok_def)

lemma step_ledger_ok:
  assumes "ledger_ok s"
  shows "\<exists>s'. step s c = Inr s' \<and> ledger_ok s' \<and> size_scale s' = size_scale s"
proof (cases c)
  case (Append w t e)
  show ?thesis
  proof (cases "implausible w")
    case True
    with assms Append show ?thesis by (simp add: AddMeasurement_implausible)
  next
    case False
    from AddMeasurement_plausible [OF assms False, of t e] obtain s' where
      s': "AddMeasurement s w t e = Inr (s', map_option (Wrapped ''could not store measurement: '') e)"
        "index s' = (if size_scale s \<le> index s + 1 then 0 else index s + 1)"
        "Measurements s' = (Measurements s)[nat (index s') := \<lparr>Index = index s', Weight = w, At = t\<rparr>]"
        "valid s' = (if e = None \<and> valid s < size_scale s then valid s + 1 else valid s)"
        "size_scale s' = size_scale s"
      by blast
    from assms s'(2-5) have "ledger_ok s'"
      by (auto simp: ledger_ok_def make_ok_def)
    with s'(1,5) Append show ?thesis by simp
  qed
next
  case (PingCall t1 t2)
  with assms show ?thesis by (auto simp: Ping_def Let_def intro: ledger_ok_frame)
next
  case (RecheckCall t1 t2)
  with assms show ?thesis by (auto simp: Recheck_def intro: ledger_ok_frame)
next
  case (RssiCall r)
  with assms show ?thesis by (auto simp: SetRssi_def intro: ledger_ok_frame)
next
  case (KegCall k e)
  with assms show ?thesis by (auto simp: SetActiveKeg_def intro: ledger_ok_frame)
qed

lemma run_ledger_ok:
  "ledger_ok s \<Longrightarrow> \<exists>s'. run s cs = Inr s' \<and> ledger_ok s' \<and> size_scale s' = size_scale s"
proof (induction cs arbitrary: s)
  case Nil
  then show ?case by simp
next
  case (Cons c cs)
  from step_ledger_ok [OF Cons.prems, of c] obtain s1 where
    s1: "step s c = Inr s1" "ledger_ok s1" "size_scale s1 = size_scale s" by blast
  from Cons.IH [OF s1(2)] s1 show ?case by auto
qed

lemma run_append: "run s (cs @ ds) = (case run s cs of Inl p \<Rightarrow> Inl p | Inr s' \<Rightarrow> run s' ds)"
  by (induction cs arbitrary: s) (auto split: sum.splits)

lemma run_after: "run s [c] = Inr s1 \<Longrightarrow> run s (c # cs) = run s1 cs"
  by (simp split: sum.splits)

lemma list_all_butlast: "list_all P xs \<Longrightarrow> list_all P (butlast xs)"
  by (auto simp: list_all_iff dest: in_set_butlastD)

lemma AddMeasurement_saved:
  assumes "ledger_ok s" and "\<not> implausible w"
  shows "\<exists>s'. AddMeasurement s w t e = Inr (s', map_option (Wrapped ''could not store measurement: '') e)
     \<and> run s [Append w t e] = Inr s' \<and> ledger_ok s' \<and> size_scale s' = size_scale s
     \<and> 0 \<le> index s' \<and> index s' < size_scale s
     \<and> index s' = (if size_scale s \<le> index s + 1 then 0 else index s + 1)
     \<and> Measurements s' ! nat (index s') = \<lparr>Index = index s', Weight = w, At = t\<rparr>
     \<and> valid s' = (if e = None \<and> valid s < size_scale s then valid s + 1 else valid s)"
proof -
  from AddMeasurement_plausible [OF assms, of t e] obtain s' where
    s': "AddMeasurement s w t e = Inr (s', map_option (Wrapped ''could not store measurement: '') e)"
      "index s' = (if size_scale s \<le> index s + 1 then 0 else index s + 1)"
      "Measurements s' = (Measurements s)[nat (index s') := \<lparr>Index = index s', Weight = w, At = t\<rparr>]"
      "valid s' = (if e = None \<and> valid s < size_scale s then valid s + 1 else valid s)"
    by blast
  have r: "run s [Append w t e] = Inr s'" using s'(1) by simp
  from step_ledger_ok [OF assms(1), of "Append w t e"] s'(1)
  have ok': "ledger_ok s'" and size': "size_scale s' = size_scale s" by auto
  from assms(1) have b: "0 \<le> index s + 1" "1 \<le> size_scale s"
    "int (length (Measurements s)) = size_scale s"
    by (auto simp: ledger_ok_def make_ok_def)
  with s'(2) have i: "0 \<le> index s'" "index s' < size_scale s" by (auto split: if_splits)
  with b s'(3) have "Measurements s' ! nat (index s') = \<lparr>Index = index s', Weight = w, At = t\<rparr>"
    by simp
  with s' r ok' size' i show ?thesis by blast
qed

section \<open>Reading the ring\<close>

text \<open>
  A slot that an append has written keeps its content while fewer than \<open>size\<close>
  further appends follow, and the cursor moves on by one slot for each of them.
\<close>

lemma slot_kept:
  assumes "ledger_ok s" and "0 \<le> p" and "p < size_scale s"
    and "index s = (p + int d) mod size_scale s"
    and "list_all plausible_append cs"
    and "d + length cs < nat (size_scale s)"
    and "run s cs = Inr s'"
  shows "Measurements s' ! nat p = Measurements s ! nat p
     \<and> index s' = (p + int d + int (length cs)) mod size_scale s"
  using assms
proof (induction cs arbitrary: s d)
  case Nil
  then show ?case by simp
next
  case (Cons c cs)
  let ?N = "size_scale s"
  from Cons.prems(5) obtain w t e where c: "c = Append w t e" and w: "\<not> implausible w"
    by (cases c) auto
  from AddMeasurement_plausible [OF Cons.prems(1) w, of t e] obtain s1 where
    s1: "AddMeasurement s w t e = Inr (s1, map_option (Wrapped ''could not store measurement: '') e)"
      "index s1 = (if ?N \<le> index s + 1 then 0 else index s + 1)"
      "Measurements s1 = (Measurements s)[nat (index s1) := \<lparr>Index = index s1, Weight = w, At = t\<rparr>]"
    by blast
  from step_ledger_ok [OF Cons.prems(1), of c] s1(1) c
  have ok1: "ledger_ok s1" and size1: "size_scale s1 = ?N" by auto
  have N: "0 < ?N" using Cons.prems(1) by (simp add: ledger_ok_def)
  have i0: "0 \<le> index s" "index s < ?N"
    using Cons.prems(4) N by simp_all
  have "index s1 = (index s + 1) mod ?N"
    using s1(2) mod_succ_ring [OF i0] by simp
  also have "\<dots> = (p + int d + 1) mod ?N"
    using Cons.prems(4) by (simp add: mod_add_left_eq)
  finally have i1: "index s1 = (p + int (Suc d)) mod ?N" by (simp add: ac_simps)
  have "0 < int (Suc d)" "int (Suc d) < ?N" using Cons.prems(6) by auto
  from mod_shift_neq [OF Cons.prems(2,3) this] i1 have neq: "index s1 \<noteq> p" by simp
  have "0 \<le> index s1" using i1 N by simp
  with neq Cons.prems(2) have "nat (index s1) \<noteq> nat p" by simp
  then have keep: "Measurements s1 ! nat p = Measurements s ! nat p"
    using s1(3) by simp
  from Cons.prems(7) c s1(1) have run1: "run s1 cs = Inr s'" by simp
  have "Measurements s' ! nat p = Measurements s1 ! nat p
     \<and> index s' = (p + int (Suc d) + int (length cs)) mod size_scale s1"
  proof (rule Cons.IH [OF ok1 _ _ _ _ _ run1])
    show "0 \<le> p" by fact
    show "p < size_scale s1" using Cons.prems(3) size1 by simp
    show "index s1 = (p + int (Suc d)) mod size_scale s1" using i1 size1 by simp
    show "list_all plausible_append cs" using Cons.prems(5) by simp
    show "Suc d + length cs < nat (size_scale s1)" using Cons.prems(6) size1 by simp
  qed
  with keep size1 show ?case by (simp add: ac_simps)
qed

lemma saved_valid_count:
  assumes "ledger_ok s" and "list_all saved_append cs" and "run s cs = Inr s'"
  shows "valid s' = min (valid s + int (length cs)) (size_scale s)"
  using assms
proof (induction cs arbitrary: s)
  case Nil
  then show ?case by (simp add: ledger_ok_def)
next
  case (Cons c cs)
  from Cons.prems(2) obtain w t where c: "c = Append w t None" and w: "\<not> implausible w"
    by (cases c) auto
  from AddMeasurement_plausible [OF Cons.prems(1) w, of t None] obtain s1 where
    s1: "AddMeasurement s w t None = Inr (s1, None)"
      "valid s1 = (if valid s < size_scale s then valid s + 1 else valid s)"
    by auto
  from step_ledger_ok [OF Cons.prems(1), of c] s1(1) c
  have ok1: "ledger_ok s1" and size1: "size_scale s1 = size_scale s" by auto
  from Cons.prems(3) c s1(1) have "run s1 cs = Inr s'" by simp
  from Cons.IH [OF ok1 _ this] Cons.prems(2)
  have "valid s' = min (valid s1 + int (length cs)) (size_scale s1)" by simp
  with s1(2) size1 Cons.prems(1) show ?case by (auto simp: ledger_ok_def)
qed

text \<open>
  When the guard lets the offset through and the sum \<^verbatim>\<open>s.index - index + s.size\<close> does
  not overflow, \<open>GetMeasurement\<close> reads the slot at \<open>(index - offset) mod size\<close>.
\<close>

lemma physical_index_ok:
  assumes "ledger_ok s" and "i \<le> valid s" and "index s - i + size_scale s \<le> max_int"
  shows "physical_index s i = Inr ((index s - i) mod size_scale s)"
proof -
  let ?N = "size_scale s"
  from assms(1) have b: "0 \<le> index s + 1" "index s + 1 \<le> 7036874417766" "1 \<le> ?N"
    "?N \<le> 7036874417766" "0 \<le> valid s" "valid s \<le> ?N" "index s = - 1 \<longrightarrow> valid s = 0"
    using make_ok_bounds by (auto simp: ledger_ok_def)
  have s1: "go_sub (index s) i = index s - i"
    unfolding go_sub_def using b assms(2,3)
    by (intro wrap_int_id) (simp_all add: min_int_def max_int_def)
  have nonneg: "0 \<le> index s - i + ?N" using b assms(2) by (cases "index s = - 1") auto
  have s2: "go_add (index s - i) ?N = index s - i + ?N"
    unfolding go_add_def using nonneg assms(3)
    by (intro wrap_int_id) (simp_all add: min_int_def)
  have "(index s - i + ?N) smod ?N = (index s - i + ?N) mod ?N"
    using nonneg b by (intro smod_nonneg) simp_all
  then show ?thesis
    using b by (simp add: physical_index_def go_rem_def s1 s2)
qed

lemma GetMeasurement_reads_slot:
  assumes "ledger_ok s" and "i \<le> valid s" and "index s - i + size_scale s \<le> max_int"
  shows "GetMeasurement s i = Inr (Measurements s ! nat ((index s - i) mod size_scale s))"
proof -
  from assms(1) have b: "1 \<le> size_scale s" "int (length (Measurements s)) = size_scale s"
    "valid s \<le> size_scale s"
    by (auto simp: ledger_ok_def)
  then have "0 \<le> (index s - i) mod size_scale s" "(index s - i) mod size_scale s < size_scale s"
    by simp_all
  with b assms(2) show ?thesis
    by (simp add: GetMeasurement_def GetValidCount_def physical_index_ok [OF assms] get_slot_def)
qed

text \<open>
  After \<open>j\<close> saved appends, fewer than the capacity, the offset \<open>j\<close> reads what the
  cursor pointed at before them.
\<close>

lemma read_back:
  assumes "ledger_ok s1" and "0 \<le> index s1" and "index s1 < size_scale s1"
    and "list_all saved_append ds" and "int (length ds) < size_scale s1"
    and "run s1 ds = Inr s'"
  shows "GetMeasurement s' (int (length ds)) = Inr (Measurements s1 ! nat (index s1))
     \<and> valid s' = min (valid s1 + int (length ds)) (size_scale s1)"
proof -
  let ?N = "size_scale s1" and ?p = "index s1" and ?j = "int (length ds)"
  from run_ledger_ok [OF assms(1), of ds] assms(6)
  have ok': "ledger_ok s'" and size': "size_scale s' = ?N" by auto
  have pl: "list_all plausible_append ds"
    using assms(4) by (auto simp: list_all_iff intro: saved_plausible)
  have "?p = (?p + int 0) mod ?N" using assms(2,3) by simp
  from slot_kept [OF assms(1,2,3) this pl _ assms(6)] assms(5)
  have slot: "Measurements s' ! nat ?p = Measurements s1 ! nat ?p"
    and idx: "index s' = (?p + ?j) mod ?N" by auto
  from saved_valid_count [OF assms(1,4,6)]
  have v: "valid s' = min (valid s1 + ?j) ?N" .
  have "0 \<le> valid s1" using assms(1) by (simp add: ledger_ok_def)
  with v assms(5) have jv: "?j \<le> valid s'" by simp
  have b: "?N \<le> 7036874417766" using assms(1) make_ok_bounds by (auto simp: ledger_ok_def)
  have "index s' < ?N" using idx assms(2,3) by simp
  with b have ov: "index s' - ?j + size_scale s' \<le> max_int"
    using size' by (simp add: max_int_def)
  have "(index s' - ?j) mod ?N = ?p mod ?N"
    unfolding idx by (simp add: mod_diff_left_eq)
  also have "\<dots> = ?p" using assms(2,3) by simp
  finally have "(index s' - ?j) mod size_scale s' = ?p" using size' by simp
  with GetMeasurement_reads_slot [OF ok' jv ov] slot v show ?thesis by simp
qed

text \<open>No offset from \<open>- (2 ^ 62)\<close> on makes the sum overflow on a well-formed ledger.\<close>

lemma offsets_without_overflow:
  assumes "ledger_ok s" and "- (2 ^ 62) \<le> i"
  shows "index s - i + size_scale s \<le> max_int"
proof -
  from assms(1) have "index s + 1 \<le> 7036874417766" "size_scale s \<le> 7036874417766"
    using make_ok_bounds by (auto simp: ledger_ok_def)
  with assms(2) show ?thesis by (simp add: max_int_def)
qed

section \<open>C1: the guard of GetMeasurement\<close>

text \<open>
  C1 says that \<open>GetMeasurement\<close> returns the empty measurement, of index \<open>- 1\<close>,
  whenever the offset is at least the valid count or at least the capacity, and in
  particular at an offset equal to the valid count. The guard of the source is
  \<^verbatim>\<open>index > s.GetValidCount() || index > s.size\<close>, with \<^verbatim>\<open>>\<close> where the claim
  has \<open>\<ge>\<close>. On the scale of capacity 3 that has no measurement yet, the valid count
  is 0 and the offset 0 reads slot 2, a zero \<^verbatim>\<open>Measurement\<close> of index 0; on the same
  scale after three saved appends, the valid count and the capacity are 3 and the
  offset 3 reads the newest measurement again.
\<close>

theorem GetMeasurement_at_valid_count:
  "NewScale 3 boot boot boot (Inr []) (Inr 0) = Inr empty3
   \<and> GetValidCount empty3 = 0
   \<and> GetMeasurement empty3 0 = Inr zero_Measurement
   \<and> Index zero_Measurement = 0
   \<and> GetMeasurement empty3 0 \<noteq> Inr empty_Measurement
   \<and> run empty3 [Append (Finite 7000) boot None, Append (Finite 7100) (boot + 1) None,
                  Append (Finite 7200) (boot + 2) None] = Inr full3
   \<and> GetValidCount full3 = 3 \<and> size_scale full3 = 3
   \<and> GetMeasurement full3 3 = Inr \<lparr>Index = 2, Weight = Finite 7200, At = boot + 2\<rparr>"
  by (simp add: NewScale_empty3) (simp add: eval_defs full3_def)

section \<open>C2: the valid count after N + k appends\<close>

text \<open>
  When the store saves every append, the claim holds: after at least \<open>N\<close> appends of
  plausible weights the valid count is \<open>N\<close>, which is \<open>min (N + k) N\<close>, and the
  offset 0 reads the measurement appended last.
\<close>

lemma saved_appends_fill:
  assumes "NewScale N t1 t2 t3 mr kr = Inr s0" and "1 \<le> N" and "reply_ok mr"
    and "list_all saved_append cs" and "\<not> implausible w" and "N \<le> int (length cs) + 1"
  shows "\<exists>s. run s0 (cs @ [Append w u None]) = Inr s
     \<and> GetValidCount s = N
     \<and> GetLastMeasurement s = Inr \<lparr>Index = index s, Weight = w, At = u\<rparr>"
proof -
  from NewScale_ledger_ok [OF assms(1-3)]
  have ok0: "ledger_ok s0" and size0: "size_scale s0 = N" and v0: "valid s0 = 0" by simp_all
  from run_ledger_ok [OF ok0, of cs] obtain s' where
    s': "run s0 cs = Inr s'" "ledger_ok s'" "size_scale s' = size_scale s0" by blast
  from saved_valid_count [OF ok0 assms(4) s'(1)] v0 size0
  have v': "valid s' = min (int (length cs)) N" by simp
  from AddMeasurement_saved [OF s'(2) assms(5), of u None] obtain s where
    s: "run s' [Append w u None] = Inr s" "ledger_ok s" "size_scale s = size_scale s'"
      "0 \<le> index s" "index s < size_scale s'"
      "Measurements s ! nat (index s) = \<lparr>Index = index s, Weight = w, At = u\<rparr>"
      "valid s = (if valid s' < size_scale s' then valid s' + 1 else valid s')"
    by auto
  have r: "run s0 (cs @ [Append w u None]) = Inr s"
    using s'(1) s(1) by (simp add: run_append)
  have v: "GetValidCount s = N"
    using s(7) v' s'(3) size0 assms(6) by (auto simp: GetValidCount_def min_def split: if_splits)
  have "GetLastMeasurement s = Inr \<lparr>Index = index s, Weight = w, At = u\<rparr>"
    using read_back [OF s(2) s(4), of "[]" s] s(3,5,6) s'(3) size0 assms(2)
    by (simp add: GetLastMeasurement_def)
  with r v show ?thesis by blast
qed

text \<open>
  C2 says that after \<open>N + k\<close> accepted appends (all weights plausible) the valid count
  is \<open>min (N + k) N\<close> and the offset 0 reads the newest measurement. An append is
  accepted when its weight passes the filter; the store may still fail. The source
  returns the error of the store before it counts the measurement
  (\<^verbatim>\<open>return fmt.Errorf(...)\<close> comes before \<^verbatim>\<open>s.valid++\<close>). With capacity 3 and
  \<open>k = 0\<close>, three appends of plausible weights while the store is down leave the
  valid count at 0, not at \<open>min (3 + 0) 3 = 3\<close>.
\<close>

theorem unsaved_appends_valid_count:
  "NewScale 3 boot boot boot (Inr []) (Inr 0) = Inr empty3
   \<and> \<not> implausible (Finite 7000) \<and> \<not> implausible (Finite 7100) \<and> \<not> implausible (Finite 7200)
   \<and> run empty3 [Append (Finite 7000) boot (Some down),
                  Append (Finite 7100) (boot + 1) (Some down),
                  Append (Finite 7200) (boot + 2) (Some down)] = Inr unsaved3_full
   \<and> GetValidCount unsaved3_full = 0
   \<and> GetValidCount unsaved3_full \<noteq> min (3 + 0) 3
   \<and> GetMeasurement unsaved3_full 0 = Inr \<lparr>Index = 2, Weight = Finite 7200, At = boot + 2\<rparr>"
  by (simp add: NewScale_empty3) (simp add: eval_defs)

section \<open>C3: an append that the store does not save\<close>

text \<open>
  What the source does for every well-formed scale that is not full: saved or not, the
  append moves the cursor and writes the slot in the same way, and the error of the
  store is wrapped and returned; the valid count grows only when the store saved.
\<close>

lemma store_failure_skips_valid:
  assumes "ledger_ok s" and "\<not> implausible w" and "valid s < size_scale s"
  shows "\<exists>s_ok s_fail.
       AddMeasurement s w t None = Inr (s_ok, None)
     \<and> AddMeasurement s w t (Some e)
         = Inr (s_fail, Some (Wrapped ''could not store measurement: '' e))
     \<and> index s_fail = index s_ok \<and> Measurements s_fail = Measurements s_ok
     \<and> valid s_ok = valid s + 1 \<and> valid s_fail = valid s"
  using AddMeasurement_plausible [OF assms(1,2), of t None]
    AddMeasurement_plausible [OF assms(1,2), of t "Some e"] assms(3)
  by auto

text \<open>
  C3 says that an append whose weight is accepted and whose call of the store fails
  leaves the ledger as a successful append does, valid count included. On the empty
  scale of capacity 3, the append of 7000 g leaves the valid count at 1 when the store
  saves it and at 0 when the store is down: the cursor and the slot are the same, the
  error is returned, the two scales differ in the valid count.
\<close>

theorem store_failure_valid_count:
  "\<not> implausible (Finite 7000)
   \<and> AddMeasurement empty3 (Finite 7000) boot None = Inr (saved3, None)
   \<and> AddMeasurement empty3 (Finite 7000) boot (Some down)
       = Inr (unsaved3, Some (Wrapped ''could not store measurement: '' down))
   \<and> index unsaved3 = index saved3 \<and> Measurements unsaved3 = Measurements saved3
   \<and> valid saved3 = 1 \<and> valid unsaved3 = 0 \<and> unsaved3 \<noteq> saved3"
  by (simp add: eval_defs)

section \<open>C4: loading the measurements of the store\<close>

text \<open>
  What the source does for every store that returns between 2 and \<open>N\<close> measurements:
  the loop writes each of them to slot 0, the cursor is set to their number minus 1,
  and the valid count stays 0. So the offset 0 reads a slot that was never written and
  every offset from 1 on is rejected.
\<close>

lemma loaded_scale_reads:
  assumes "NewScale N t1 t2 t3 (Inr ms) kr = Inr s" and "1 \<le> N" and "is_slice ms"
    and "2 \<le> length ms" and "int (length ms) \<le> N"
  shows "GetValidCount s = 0 \<and> GetMeasurement s 0 = Inr zero_Measurement
     \<and> (\<forall>i\<ge>1. GetMeasurement s i = Inr empty_Measurement)"
proof -
  have ro: "reply_ok (Inr ms)" using assms(3) by (simp add: reply_ok_def)
  from NewScale_ledger_ok [OF assms(1,2) ro]
  have ok: "ledger_ok s" and size: "size_scale s = N" and v: "valid s = 0" by simp_all
  have mk: "make_ok N" using ok size by (simp add: ledger_ok_def)
  have len: "min_int \<le> int (length ms) - 1" "int (length ms) - 1 \<le> max_int"
    using assms(5) make_ok_bounds [OF mk] by (simp_all add: min_int_def max_int_def)
  have ne: "replicate (nat N) zero_Measurement \<noteq> []" using assms(2) by simp
  have ms: "ms \<noteq> []" using assms(4) by auto
  from assms(1) mk have idx: "index s = int (length ms) - 1"
    and slots: "Measurements s = (replicate (nat N) zero_Measurement)[0 := last ms]"
    using ms
    by (auto simp: NewScale_def loadDataFromStore_def Let_def go_sub_def wrap_int_id [OF len]
        load_loop_zero [OF ne] split: sum.splits)
  have i: "1 \<le> index s" "index s < N" using idx assms(4,5) by simp_all
  then have "(index s - 0) mod N = index s" by simp
  moreover have "index s - 0 + size_scale s \<le> max_int"
    using i size make_ok_bounds [OF mk] by (simp add: max_int_def)
  ultimately have "GetMeasurement s 0 = Inr (Measurements s ! nat (index s))"
    using GetMeasurement_reads_slot [OF ok, of 0] v size by simp
  also have "Measurements s ! nat (index s) = zero_Measurement"
    using slots i by simp
  finally have r0: "GetMeasurement s 0 = Inr zero_Measurement" .
  have "GetMeasurement s i = Inr empty_Measurement" if "1 \<le> i" for i
    using that v by (simp add: GetMeasurement_def GetValidCount_def)
  with r0 v show ?thesis by (simp add: GetValidCount_def)
qed

text \<open>
  C4 says that after construction over a store that returns \<open>k\<close> measurements, oldest
  first, the offset \<open>i < k\<close> reads the \<open>(k - i)\<close>-th of them. With capacity 3 and the
  two stored measurements \<open>old1\<close> and \<open>old2\<close>, the offset 0 reads a zero
  \<^verbatim>\<open>Measurement\<close> instead of \<open>old2\<close> and the offset 1 reads the empty measurement
  instead of \<open>old1\<close>.
\<close>

theorem load_keeps_first_slot_only:
  "NewScale 3 boot boot boot (Inr [old1, old2]) (Inr 0) = Inr loaded3
   \<and> Measurements loaded3 = [old2, zero_Measurement, zero_Measurement]
   \<and> index loaded3 = 1
   \<and> GetValidCount loaded3 = 0
   \<and> GetMeasurement loaded3 0 = Inr zero_Measurement
   \<and> GetMeasurement loaded3 0 \<noteq> Inr old2
   \<and> GetMeasurement loaded3 1 = Inr empty_Measurement
   \<and> GetMeasurement loaded3 1 \<noteq> Inr old1"
  by (simp add: eval_defs boot_def numeral_3_eq_3)

section \<open>C5: Recheck closes the pub once\<close>

lemma IsOk_iff: "IsOk s now \<longleftrightarrow> now - LastOk s < OkLimit"
  by (simp add: IsOk_def Since_def time_Sub_def OkLimit_def Minute_def max_int_def min_int_def)

lemma OkLimit_pos: "0 < OkLimit"
  by (simp add: OkLimit_def Minute_def)

text \<open>
  C5. When the pub is open and the last contact is at least the staleness threshold
  old at the reading \<open>t_check\<close> of \<open>IsOk\<close>, one call of \<open>Recheck\<close> closes the pub and
  sets \<open>ClosedAt\<close> to the reading \<open>t_closed\<close> of the clock minus the threshold, and
  changes nothing else; every further call of \<open>Recheck\<close>, at any readings of the
  clock, returns the scale unchanged.
\<close>

theorem Recheck_closes_once:
  assumes "IsOpen (Pub s)" and "OkLimit \<le> t_check - LastOk s"
  shows "\<not> IsOk s t_check
     \<and> Recheck s t_check t_closed = s\<lparr>Pub := (Pub s)\<lparr>IsOpen := False, ClosedAt := t_closed - OkLimit\<rparr>\<rparr>
     \<and> \<not> IsOpen (Pub (Recheck s t_check t_closed))
     \<and> ClosedAt (Pub (Recheck s t_check t_closed)) = t_closed - OkLimit
     \<and> (\<forall>u v. Recheck (Recheck s t_check t_closed) u v = Recheck s t_check t_closed)"
  using assms by (simp add: Recheck_def IsOk_iff time_Add_def)

theorem Recheck_closes_once_witness:
  "IsOpen (Pub open3) \<and> OkLimit \<le> (boot + OkLimit) - LastOk open3
   \<and> Recheck open3 (boot + OkLimit) (boot + OkLimit + 1)
       = open3\<lparr>Pub := (Pub open3)\<lparr>IsOpen := False, ClosedAt := boot + 1\<rparr>\<rparr>
   \<and> Recheck (Recheck open3 (boot + OkLimit) (boot + OkLimit + 1)) (boot + 2 * OkLimit) (boot + 2 * OkLimit)
       = Recheck open3 (boot + OkLimit) (boot + OkLimit + 1)"
proof -
  have o: "IsOpen (Pub open3)" by (simp add: open3_def Ping_def empty3_def)
  have l: "OkLimit \<le> (boot + OkLimit) - LastOk open3" by (simp add: open3_def Ping_def empty3_def)
  note rco = Recheck_closes_once [OF o l, of "boot + OkLimit + 1"]
  from rco have a: "Recheck open3 (boot + OkLimit) (boot + OkLimit + 1)
      = open3\<lparr>Pub := (Pub open3)\<lparr>IsOpen := False, ClosedAt := boot + 1\<rparr>\<rparr>"
    by simp
  from rco have b: "Recheck (Recheck open3 (boot + OkLimit) (boot + OkLimit + 1))
      (boot + 2 * OkLimit) (boot + 2 * OkLimit) = Recheck open3 (boot + OkLimit) (boot + OkLimit + 1)"
    by blast
  from o l a b show ?thesis by (intro conjI)
qed

section \<open>C6: the wrap of the ring\<close>

text \<open>
  C6, as amended. On a scale of capacity \<open>N\<close>, take \<open>N + 1\<close> appends of plausible
  weights that the store saves. After the first \<open>N\<close> of them the offset \<open>N - 1\<close>
  reads the first appended measurement. After all \<open>N + 1\<close> the offset \<open>N - 1\<close> reads
  the second appended measurement, which is not the first one when \<open>N \<ge> 2\<close> or when
  the two differ in weight or in time. No call panics. The first and the second
  appended measurement are what \<open>GetLastMeasurement\<close> reads right after their appends.
\<close>

theorem ring_wrap:
  assumes "NewScale N t1 t2 t3 mr kr = Inr s0" and "1 \<le> N" and "reply_ok mr"
    and "\<not> implausible w1" and "\<not> implausible w2"
    and "list_all saved_append cs" and "int (length cs) = N - 1"
  shows "\<exists>s1 s2 sN sN1.
       run s0 [Append w1 u1 None] = Inr s1
     \<and> GetLastMeasurement s1 = Inr \<lparr>Index = index s1, Weight = w1, At = u1\<rparr>
     \<and> run s1 [Append w2 u2 None] = Inr s2
     \<and> GetLastMeasurement s2 = Inr \<lparr>Index = index s2, Weight = w2, At = u2\<rparr>
     \<and> run s0 (butlast (Append w1 u1 None # Append w2 u2 None # cs)) = Inr sN
     \<and> GetMeasurement sN (N - 1) = Inr \<lparr>Index = index s1, Weight = w1, At = u1\<rparr>
     \<and> run s0 (Append w1 u1 None # Append w2 u2 None # cs) = Inr sN1
     \<and> GetMeasurement sN1 (N - 1) = Inr \<lparr>Index = index s2, Weight = w2, At = u2\<rparr>
     \<and> (2 \<le> N \<or> w1 \<noteq> w2 \<or> u1 \<noteq> u2 \<longrightarrow>
          GetMeasurement sN1 (N - 1) \<noteq> Inr \<lparr>Index = index s1, Weight = w1, At = u1\<rparr>)"
proof -
  let ?A1 = "Append w1 u1 None" and ?A2 = "Append w2 u2 None"
  from NewScale_ledger_ok [OF assms(1-3)]
  have ok0: "ledger_ok s0" and size0: "size_scale s0 = N" and v0: "valid s0 = 0" by simp_all
  from AddMeasurement_saved [OF ok0 assms(4), of u1 None] size0 obtain s1 where
    s1: "run s0 [?A1] = Inr s1" "ledger_ok s1" "size_scale s1 = N" "0 \<le> index s1" "index s1 < N"
      "Measurements s1 ! nat (index s1) = \<lparr>Index = index s1, Weight = w1, At = u1\<rparr>"
    by auto
  from AddMeasurement_saved [OF s1(2) assms(5), of u2 None] s1(3) obtain s2 where
    s2: "run s1 [?A2] = Inr s2" "ledger_ok s2" "size_scale s2 = N" "0 \<le> index s2" "index s2 < N"
      "index s2 = (if N \<le> index s1 + 1 then 0 else index s1 + 1)"
      "Measurements s2 ! nat (index s2) = \<lparr>Index = index s2, Weight = w2, At = u2\<rparr>"
    by auto
  have last1: "GetLastMeasurement s1 = Inr \<lparr>Index = index s1, Weight = w1, At = u1\<rparr>"
    using read_back [OF s1(2) s1(4), of "[]" s1] s1(3,5,6) assms(2)
    by (simp add: GetLastMeasurement_def)
  have last2: "GetLastMeasurement s2 = Inr \<lparr>Index = index s2, Weight = w2, At = u2\<rparr>"
    using read_back [OF s2(2) s2(4), of "[]" s2] s2(3,5,7) assms(2)
    by (simp add: GetLastMeasurement_def)
  let ?ds = "butlast (?A2 # cs)"
  have ds: "list_all saved_append ?ds" "int (length ?ds) = N - 1"
    using assms(5,6,7) by (auto intro: list_all_butlast)
  from run_ledger_ok [OF s1(2), of ?ds] obtain sN where sN: "run s1 ?ds = Inr sN" by blast
  have "butlast (?A1 # ?A2 # cs) = ?A1 # ?ds" by simp
  then have runN: "run s0 (butlast (?A1 # ?A2 # cs)) = Inr sN"
    by (simp only: run_after [OF s1(1)] sN)
  have readN: "GetMeasurement sN (N - 1) = Inr \<lparr>Index = index s1, Weight = w1, At = u1\<rparr>"
    using read_back [OF s1(2) s1(4) _ ds(1) _ sN] s1(3,5,6) ds(2) by simp
  from run_ledger_ok [OF s2(2), of cs] obtain sN1 where sN1: "run s2 cs = Inr sN1" by blast
  have runN1: "run s0 (?A1 # ?A2 # cs) = Inr sN1"
    by (simp only: run_after [OF s1(1)] run_after [OF s2(1)] sN1)
  have readN1: "GetMeasurement sN1 (N - 1) = Inr \<lparr>Index = index s2, Weight = w2, At = u2\<rparr>"
    using read_back [OF s2(2) s2(4) _ assms(6) _ sN1] s2(3,5,7) assms(7) by simp
  have "GetMeasurement sN1 (N - 1) \<noteq> Inr \<lparr>Index = index s1, Weight = w1, At = u1\<rparr>"
    if "2 \<le> N \<or> w1 \<noteq> w2 \<or> u1 \<noteq> u2"
  proof -
    from that s2(6) s1(4,5) have "index s2 \<noteq> index s1 \<or> w1 \<noteq> w2 \<or> u1 \<noteq> u2"
      by (auto split: if_splits)
    with readN1 show ?thesis by auto
  qed
  with s1(1) last1 s2(1) last2 runN readN runN1 readN1 show ?thesis by blast
qed

theorem ring_wrap_witness:
  "NewScale 3 boot boot boot (Inr []) (Inr 0) = Inr empty3 \<and> (1::int) \<le> 3 \<and> reply_ok (Inr [])
   \<and> \<not> implausible (Finite 7000) \<and> \<not> implausible (Finite 7100)
   \<and> list_all saved_append
        [Append (Finite 7200) (boot + 2) None, Append (Finite 7300) (boot + 3) None]
   \<and> int (length [Append (Finite 7200) (boot + 2) None, Append (Finite 7300) (boot + 3) None]) = 3 - 1
   \<and> (\<exists>s1 s2 sN sN1.
         run empty3 [Append (Finite 7000) boot None] = Inr s1
       \<and> run s1 [Append (Finite 7100) (boot + 1) None] = Inr s2
       \<and> run empty3 (butlast [Append (Finite 7000) boot None, Append (Finite 7100) (boot + 1) None,
             Append (Finite 7200) (boot + 2) None, Append (Finite 7300) (boot + 3) None]) = Inr sN
       \<and> GetMeasurement sN (3 - 1) = Inr \<lparr>Index = index s1, Weight = Finite 7000, At = boot\<rparr>
       \<and> run empty3 [Append (Finite 7000) boot None, Append (Finite 7100) (boot + 1) None,
             Append (Finite 7200) (boot + 2) None, Append (Finite 7300) (boot + 3) None] = Inr sN1
       \<and> GetMeasurement sN1 (3 - 1) = Inr \<lparr>Index = index s2, Weight = Finite 7100, At = boot + 1\<rparr>
       \<and> GetMeasurement sN1 (3 - 1) \<noteq> Inr \<lparr>Index = index s1, Weight = Finite 7000, At = boot\<rparr>)"
proof -
  have h2: "(1::int) \<le> 3" by simp
  have h3: "reply_ok (Inr [])" by (simp add: reply_ok_def is_slice_def make_ok_def maxAlloc_def)
  have h4: "\<not> implausible (Finite 7000)" by (simp add: implausible_def fgt_def)
  have h5: "\<not> implausible (Finite 7100)" by (simp add: implausible_def fgt_def)
  have h6: "list_all saved_append
      [Append (Finite 7200) (boot + 2) None, Append (Finite 7300) (boot + 3) None]"
    by (simp add: implausible_def fgt_def)
  have h7: "int (length [Append (Finite 7200) (boot + 2) None, Append (Finite 7300) (boot + 3) None]) = 3 - 1"
    by simp
  from ring_wrap [OF NewScale_empty3 h2 h3 h4 h5 h6 h7, of boot "boot + 1"]
  obtain s1 s2 sN sN1 where
    "run empty3 [Append (Finite 7000) boot None] = Inr s1"
    "run s1 [Append (Finite 7100) (boot + 1) None] = Inr s2"
    "run empty3 (butlast [Append (Finite 7000) boot None, Append (Finite 7100) (boot + 1) None,
             Append (Finite 7200) (boot + 2) None, Append (Finite 7300) (boot + 3) None]) = Inr sN"
    "GetMeasurement sN (3 - 1) = Inr \<lparr>Index = index s1, Weight = Finite 7000, At = boot\<rparr>"
    "run empty3 [Append (Finite 7000) boot None, Append (Finite 7100) (boot + 1) None,
             Append (Finite 7200) (boot + 2) None, Append (Finite 7300) (boot + 3) None] = Inr sN1"
    "GetMeasurement sN1 (3 - 1) = Inr \<lparr>Index = index s2, Weight = Finite 7100, At = boot + 1\<rparr>"
    "GetMeasurement sN1 (3 - 1) \<noteq> Inr \<lparr>Index = index s1, Weight = Finite 7000, At = boot\<rparr>"
    by auto
  then have "\<exists>s1 s2 sN sN1.
         run empty3 [Append (Finite 7000) boot None] = Inr s1
       \<and> run s1 [Append (Finite 7100) (boot + 1) None] = Inr s2
       \<and> run empty3 (butlast [Append (Finite 7000) boot None, Append (Finite 7100) (boot + 1) None,
             Append (Finite 7200) (boot + 2) None, Append (Finite 7300) (boot + 3) None]) = Inr sN
       \<and> GetMeasurement sN (3 - 1) = Inr \<lparr>Index = index s1, Weight = Finite 7000, At = boot\<rparr>
       \<and> run empty3 [Append (Finite 7000) boot None, Append (Finite 7100) (boot + 1) None,
             Append (Finite 7200) (boot + 2) None, Append (Finite 7300) (boot + 3) None] = Inr sN1
       \<and> GetMeasurement sN1 (3 - 1) = Inr \<lparr>Index = index s2, Weight = Finite 7100, At = boot + 1\<rparr>
       \<and> GetMeasurement sN1 (3 - 1) \<noteq> Inr \<lparr>Index = index s1, Weight = Finite 7000, At = boot\<rparr>"
    by blast
  with NewScale_empty3 h2 h3 h4 h5 h6 h7 show ?thesis by (intro conjI)
qed

text \<open>
  C6 as stated fails for capacity 1: two appends of the same weight at the same reading
  of the clock write the same \<^verbatim>\<open>Measurement\<close> to slot 0, so after \<open>N + 1 = 2\<close>
  appends the offset \<open>N - 1 = 0\<close> still reads a measurement equal to the first one.
\<close>

theorem ring_wrap_capacity_one_counterexample:
  "NewScale 1 boot boot boot (Inr []) (Inr 0) = Inr empty1
   \<and> \<not> implausible (Finite 7000)
   \<and> run empty1 [Append (Finite 7000) boot None] = Inr once1
   \<and> GetLastMeasurement once1 = Inr first3
   \<and> run empty1 [Append (Finite 7000) boot None, Append (Finite 7000) boot None] = Inr once1
   \<and> GetMeasurement once1 (1 - 1) = Inr first3"
  by (simp add: NewScale_empty1) (simp add: eval_defs)

text \<open>
  With a store that is down, the appends are not counted (see C3) and the offset
  \<open>N - 1\<close> is rejected after \<open>N\<close> appends.
\<close>

lemma unsaved3_full_read:
  "GetMeasurement unsaved3_full (3 - 1) = Inr empty_Measurement"
  by (simp add: eval_defs)

section \<open>C7: the order of the opening and closing times\<close>

lemma NewScale_Pub:
  assumes "NewScale N t1 t2 t3 mr kr = Inr s"
  shows "Pub s = \<lparr>IsOpen = False, OpenedAt = t1 - 9999 * Hour, ClosedAt = t2 - 9999 * Hour\<rparr>
     \<and> LastOk s = t3 - 9999 * Hour"
  using assms
  by (auto simp: NewScale_def loadDataFromStore_def time_Add_def Let_def split: if_splits sum.splits)

lemma NewScale_venue_ok:
  assumes "NewScale N t1 t2 t3 mr kr = Inr s" and "t1 \<le> t2" and "t2 \<le> t3"
  shows "venue_ok t3 s"
  using NewScale_Pub [OF assms(1)] assms(2,3)
  by (simp add: venue_ok_def OkLimit_def Hour_def Minute_def)

lemma AddMeasurement_venue:
  "AddMeasurement s w t e = Inr (s', r) \<Longrightarrow> Pub s' = Pub s \<and> LastOk s' = LastOk s"
  by (auto simp: AddMeasurement_def Let_def split: if_splits sum.splits option.splits)

lemma venue_ok_mono: "venue_ok c s \<Longrightarrow> c \<le> c' \<Longrightarrow> venue_ok c' s"
  by (auto simp: venue_ok_def)

lemma Ping_venue_ok:
  "venue_ok c s \<Longrightarrow> c \<le> t1 \<Longrightarrow> t1 \<le> t2 \<Longrightarrow> venue_ok t2 (Ping s t1 t2)"
  using OkLimit_pos by (auto simp: venue_ok_def Ping_def Let_def)

lemma Recheck_venue_ok:
  "venue_ok c s \<Longrightarrow> c \<le> t1 \<Longrightarrow> t1 \<le> t2 \<Longrightarrow> venue_ok t2 (Recheck s t1 t2)"
  using OkLimit_pos by (auto simp: venue_ok_def Recheck_def IsOk_iff time_Add_def)

lemma run_venue_ok:
  "venue_ok c s \<Longrightarrow> clock_ok c cs \<Longrightarrow> run s cs = Inr s' \<Longrightarrow> \<exists>c'. venue_ok c' s'"
proof (induction cs arbitrary: c s)
  case Nil
  then show ?case by auto
next
  case (Cons a cs)
  show ?case
  proof (cases a)
    case (Append w t e)
    with Cons.prems(3) obtain s1 r where s1: "AddMeasurement s w t e = Inr (s1, r)" "run s1 cs = Inr s'"
      by (auto split: sum.splits)
    from AddMeasurement_venue [OF s1(1)] Cons.prems(1) have "venue_ok c s1"
      by (simp add: venue_ok_def)
    with Cons.prems(2) Append have "venue_ok t s1" "clock_ok t cs"
      by (auto intro: venue_ok_mono)
    with Cons.IH s1(2) show ?thesis by blast
  next
    case (PingCall t1 t2)
    with Cons.prems have "venue_ok t2 (Ping s t1 t2)" "clock_ok t2 cs" "run (Ping s t1 t2) cs = Inr s'"
      by (auto intro: Ping_venue_ok)
    with Cons.IH show ?thesis by blast
  next
    case (RecheckCall t1 t2)
    with Cons.prems have "venue_ok t2 (Recheck s t1 t2)" "clock_ok t2 cs"
      "run (Recheck s t1 t2) cs = Inr s'"
      by (auto intro: Recheck_venue_ok)
    with Cons.IH show ?thesis by blast
  next
    case (RssiCall x)
    with Cons.prems have "venue_ok c (SetRssi s x)" "clock_ok c cs" "run (SetRssi s x) cs = Inr s'"
      by (auto simp: venue_ok_def SetRssi_def)
    with Cons.IH show ?thesis by blast
  next
    case (KegCall k e)
    with Cons.prems have "venue_ok c (fst (SetActiveKeg s k e))" "clock_ok c cs"
      "run (fst (SetActiveKeg s k e)) cs = Inr s'"
      by (auto simp: venue_ok_def SetActiveKeg_def)
    with Cons.IH show ?thesis by blast
  qed
qed

text \<open>
  C7, as amended. After \<open>NewScale\<close> and any calls that run one after the other, with
  a clock that never goes back: when the pub is open, \<open>OpenedAt\<close> is later than
  \<open>ClosedAt\<close>; when it is closed, \<open>ClosedAt\<close> is not earlier than \<open>OpenedAt\<close>.
\<close>

theorem venue_order:
  assumes "NewScale N t1 t2 t3 mr kr = Inr s0" and "t1 \<le> t2" and "t2 \<le> t3"
    and "clock_ok t3 cs" and "run s0 cs = Inr s"
  shows "(IsOpen (Pub s) \<longrightarrow> ClosedAt (Pub s) < OpenedAt (Pub s))
     \<and> (\<not> IsOpen (Pub s) \<longrightarrow> OpenedAt (Pub s) \<le> ClosedAt (Pub s))"
proof -
  from NewScale_venue_ok [OF assms(1-3)] have "venue_ok t3 s0" .
  from run_venue_ok [OF this assms(4,5)] show ?thesis by (auto simp: venue_ok_def)
qed

theorem venue_order_witness:
  "NewScale 3 boot boot boot (Inr []) (Inr 0) = Inr empty3 \<and> boot \<le> boot
   \<and> clock_ok boot [PingCall boot boot]
   \<and> run empty3 [PingCall boot boot] = Inr (Ping empty3 boot boot)
   \<and> IsOpen (Pub (Ping empty3 boot boot))
   \<and> ClosedAt (Pub (Ping empty3 boot boot)) < OpenedAt (Pub (Ping empty3 boot boot))"
proof -
  have r: "run empty3 [PingCall boot boot] = Inr (Ping empty3 boot boot)" by simp
  have c: "clock_ok boot [PingCall boot boot]" by simp
  have o: "IsOpen (Pub (Ping empty3 boot boot))" by (simp add: Ping_def empty3_def)
  from venue_order [OF NewScale_empty3 order_refl order_refl c r] o NewScale_empty3 r c
  show ?thesis by simp
qed

text \<open>
  C7 as stated fails in the initial state: the pub is closed and \<open>NewScale\<close> sets
  \<open>OpenedAt\<close> and \<open>ClosedAt\<close> to the same far-past instant when its two readings of
  the clock are equal, so \<open>ClosedAt\<close> is not later than \<open>OpenedAt\<close>.
\<close>

theorem venue_strict_order_counterexample:
  "NewScale 3 boot boot boot (Inr []) (Inr 0) = Inr empty3
   \<and> clock_ok boot [] \<and> run empty3 [] = Inr empty3
   \<and> \<not> IsOpen (Pub empty3)
   \<and> \<not> OpenedAt (Pub empty3) < ClosedAt (Pub empty3)"
  by (simp add: NewScale_empty3) (simp add: empty3_def)

section \<open>C8: the plausibility filter\<close>

text \<open>
  What the guard does: a weight below 6000 or above 65000 is not recorded, and
  \<open>AddMeasurement\<close> returns the scale as it was (cursor, slots and valid count
  included) and no error, in particular for the weights 100 and 90000. The guard lets
  no weight of the plausible range fall out, and every weight outside the range other
  than NaN is rejected.
\<close>

lemma AddMeasurement_implausible_noop:
  "(flt weight (Finite 6000) \<or> fgt weight (Finite 65000)
      \<longrightarrow> AddMeasurement s weight now store_err = Inr (s, None))
   \<and> AddMeasurement s (Finite 100) now store_err = Inr (s, None)
   \<and> AddMeasurement s (Finite 90000) now store_err = Inr (s, None)"
  by (simp add: AddMeasurement_def implausible_def fgt_def)

lemma implausible_outside: "implausible weight \<Longrightarrow> \<not> in_plausible_range weight"
  by (cases weight) (auto simp: implausible_def in_plausible_range_def fgt_def)

lemma outside_implausible:
  "weight \<noteq> NaN \<Longrightarrow> \<not> in_plausible_range weight \<Longrightarrow> implausible weight"
  by (cases weight) (auto simp: implausible_def in_plausible_range_def fgt_def)

lemma outside_range_noop:
  "weight \<noteq> NaN \<Longrightarrow> \<not> in_plausible_range weight
   \<Longrightarrow> AddMeasurement s weight now store_err = Inr (s, None)"
  by (simp add: outside_implausible AddMeasurement_implausible)

text \<open>
  C8 says that for every weight outside the plausible range the append changes nothing
  in the ledger and returns no error. NaN is outside the range, and a request can
  carry it (\<^verbatim>\<open>strconv.ParseFloat\<close> reads \<^verbatim>\<open>NaN\<close>). Both comparisons of the guard
  \<^verbatim>\<open>weight < 6000 || weight > 65000\<close> are false for NaN, so the guard misses it: on
  the empty scale of capacity 3 the append of NaN moves the cursor to 0, writes the
  slot and counts the measurement.
\<close>

theorem NaN_weight_recorded:
  "\<not> in_plausible_range NaN
   \<and> \<not> flt NaN (Finite 6000) \<and> \<not> fgt NaN (Finite 65000)
   \<and> NewScale 3 boot boot boot (Inr []) (Inr 0) = Inr empty3
   \<and> AddMeasurement empty3 NaN boot None = Inr (nan3, None)
   \<and> Measurements nan3 = [\<lparr>Index = 0, Weight = NaN, At = boot\<rparr>, zero_Measurement, zero_Measurement]
   \<and> index nan3 = 0 \<and> index empty3 = - 1
   \<and> valid nan3 = 1 \<and> valid empty3 = 0
   \<and> nan3 \<noteq> empty3"
  by (simp add: NewScale_empty3) (simp add: eval_defs nan3_def in_plausible_range_def)

section \<open>C9: the mutex during the call of the store\<close>



section \<open>C10: the index that GetMeasurement reads\<close>

text \<open>
  C10, as amended. On a scale made by \<open>NewScale\<close> with a capacity \<open>N \<ge> 1\<close>, no call
  panics, and after any calls, for every offset \<open>i\<close> for which
  \<^verbatim>\<open>s.index - index + s.size\<close> does not exceed the largest \<^verbatim>\<open>int\<close>,
  \<open>GetMeasurement\<close> returns a measurement; when the guard lets the offset through,
  the physical index is in \<open>[0, N)\<close>, the slice has \<open>N\<close> slots, and the measurement is
  the slot at that index. Every offset from \<open>- (2 ^ 62)\<close> on satisfies the condition,
  the negative ones and the empty ledger included.
\<close>

theorem GetMeasurement_index_in_range:
  assumes "NewScale N t1 t2 t3 mr kr = Inr s0" and "1 \<le> N" and "reply_ok mr"
  shows "\<exists>s. run s0 cs = Inr s
     \<and> (\<forall>i. index s - i + N \<le> max_int \<longrightarrow>
           (\<exists>m. GetMeasurement s i = Inr m)
         \<and> (i \<le> GetValidCount s \<and> i \<le> size_scale s \<longrightarrow>
              (\<exists>idx. physical_index s i = Inr idx \<and> 0 \<le> idx \<and> idx < N
                 \<and> int (length (Measurements s)) = N
                 \<and> GetMeasurement s i = Inr (Measurements s ! nat idx))))"
proof -
  from NewScale_ledger_ok [OF assms] have ok0: "ledger_ok s0" and size0: "size_scale s0 = N"
    by simp_all
  from run_ledger_ok [OF ok0, of cs] obtain s where
    s: "run s0 cs = Inr s" "ledger_ok s" "size_scale s = size_scale s0" by blast
  have N: "size_scale s = N" using s(3) size0 by simp
  have len: "int (length (Measurements s)) = N" using s(2) N by (simp add: ledger_ok_def)
  have "(\<exists>m. GetMeasurement s i = Inr m)
      \<and> (i \<le> GetValidCount s \<and> i \<le> size_scale s \<longrightarrow>
           (\<exists>idx. physical_index s i = Inr idx \<and> 0 \<le> idx \<and> idx < N
              \<and> int (length (Measurements s)) = N
              \<and> GetMeasurement s i = Inr (Measurements s ! nat idx)))"
    if i: "index s - i + N \<le> max_int" for i
  proof (cases "i \<le> GetValidCount s \<and> i \<le> size_scale s")
    case False
    then show ?thesis by (auto simp: GetMeasurement_def)
  next
    case True
    then have v: "i \<le> valid s" by (simp add: GetValidCount_def)
    from i N have i': "index s - i + size_scale s \<le> max_int" by simp
    have "0 \<le> (index s - i) mod N" "(index s - i) mod N < N" using assms(2) by simp_all
    with physical_index_ok [OF s(2) v i'] GetMeasurement_reads_slot [OF s(2) v i'] N len
    show ?thesis by auto
  qed
  with s(1) show ?thesis by blast
qed

theorem GetMeasurement_index_in_range_witness:
  "NewScale 3 boot boot boot (Inr []) (Inr 0) = Inr empty3 \<and> (1::int) \<le> 3 \<and> reply_ok (Inr [])
   \<and> index empty3 - (- 2) + 3 \<le> max_int
   \<and> - 2 \<le> GetValidCount empty3 \<and> - 2 \<le> size_scale empty3
   \<and> (\<exists>idx. physical_index empty3 (- 2) = Inr idx \<and> 0 \<le> idx \<and> idx < 3
          \<and> GetMeasurement empty3 (- 2) = Inr (Measurements empty3 ! nat idx))"
proof -
  have r: "reply_ok (Inr [])" by (simp add: reply_ok_def is_slice_def make_ok_def maxAlloc_def)
  have b: "index empty3 - (- 2) + 3 \<le> max_int" by (simp add: empty3_def max_int_def)
  have g: "- 2 \<le> GetValidCount empty3 \<and> - 2 \<le> size_scale empty3"
    by (simp add: GetValidCount_def empty3_def)
  from GetMeasurement_index_in_range [OF NewScale_empty3 _ r, of "[]"]
  have "\<forall>i. index empty3 - i + 3 \<le> max_int \<longrightarrow>
           (\<exists>m. GetMeasurement empty3 i = Inr m)
         \<and> (i \<le> GetValidCount empty3 \<and> i \<le> size_scale empty3 \<longrightarrow>
              (\<exists>idx. physical_index empty3 i = Inr idx \<and> 0 \<le> idx \<and> idx < 3
                 \<and> int (length (Measurements empty3)) = 3
                 \<and> GetMeasurement empty3 i = Inr (Measurements empty3 ! nat idx)))"
    by simp
  with b g have "\<exists>idx. physical_index empty3 (- 2) = Inr idx \<and> 0 \<le> idx \<and> idx < 3
          \<and> GetMeasurement empty3 (- 2) = Inr (Measurements empty3 ! nat idx)"
    by blast
  with NewScale_empty3 r b g show ?thesis by simp
qed

text \<open>
  C10 as stated fails for an offset near the smallest \<^verbatim>\<open>int\<close>: on the empty scale of
  capacity 3 the offset \<open>- (2 ^ 63) + 1\<close> passes the guard, the sum
  \<^verbatim>\<open>s.index - index + s.size\<close> wraps around to a negative number, \<^verbatim>\<open>%\<close> gives
  \<open>- 1\<close>, and the read of the slice panics.
\<close>

theorem GetMeasurement_overflow_counterexample:
  "NewScale 3 boot boot boot (Inr []) (Inr 0) = Inr empty3
   \<and> run empty3 [] = Inr empty3
   \<and> is_int (- 9223372036854775807)
   \<and> - 9223372036854775807 \<le> GetValidCount empty3
   \<and> - 9223372036854775807 \<le> size_scale empty3
   \<and> physical_index empty3 (- 9223372036854775807) = Inr (- 1)
   \<and> GetMeasurement empty3 (- 9223372036854775807) = Inl IndexOutOfRange"
  by (simp add: NewScale_empty3)
     (simp add: GetValidCount_def GetMeasurement_def physical_index_def go_rem_def go_add_def
        go_sub_def wrap_int_def get_slot_def empty3_def signed_modulo_int_def is_int_def
        min_int_def max_int_def)

end
